theory Spec2Isabelle
  imports Complex_Main "HOL-Library.Word"
begin

unbundle bit_operations_syntax

section \<open>Data model (include/auton\_replay.h)\<close>

type_synonym u8 = "8 word"
type_synonym u32 = "32 word"

text \<open>
  \<open>struct RecordedFrame\<close>. The two sticks are \<open>int8_t\<close>: they are kept as 8-bit words
  and read with \<open>sint\<close>. The \<open>float\<close> heading is idealised as an exact real number:
  rounding of single-precision arithmetic is not part of this model.
\<close>

record RecordedFrame =
  timestamp :: u32
  leftStick :: "8 word"
  rightStick :: "8 word"
  heading :: real
  buttons :: u8

definition BTN_R1 :: nat where "BTN_R1 = 0"
definition BTN_R2 :: nat where "BTN_R2 = 1"
definition BTN_L1 :: nat where "BTN_L1 = 2"
definition BTN_L2 :: nat where "BTN_L2 = 3"
definition BTN_X :: nat where "BTN_X = 4"
definition BTN_A :: nat where "BTN_A = 5"
definition BTN_B :: nat where "BTN_B = 6"

lemmas BTN_defs = BTN_R1_def BTN_R2_def BTN_L1_def BTN_L2_def BTN_X_def BTN_A_def BTN_B_def

text \<open>\<open>class AutonReplay\<close>: the private members, with their default initialisers.\<close>

record AutonReplay =
  recording :: "RecordedFrame list"
  recordStartTime :: u32
  isRecording :: bool
  isPlaying :: bool
  prevButtons :: u8
  imuCorrectionGain :: real

definition autonReplay :: AutonReplay where
  "autonReplay = \<lparr> recording = [], recordStartTime = 0, isRecording = False,
     isPlaying = False, prevButtons = 0, imuCorrectionGain = 2 \<rparr>"

section \<open>The environment of the object\<close>

text \<open>
  Everything \<open>AutonReplay\<close> reads or writes outside its own members: the clock
  (\<open>pros::millis\<close>, advanced only by \<open>pros::delay\<close>), the controller and the inertial
  sensor (readings given as functions of the clock), the actuators (each holding the
  last value commanded), the file on the SD card, the seven function-local \<open>static\<close>
  latches of \<open>playback\<close> (they have static storage duration, so they live as long as the
  process), and the sequence of all commands issued so far. Setting the heading of the
  sensor is a command like the others; what the sensor reads afterwards is the
  environment's. Time passes only in \<open>pros::delay\<close>.
\<close>

datatype button = DIGITAL_R1 | DIGITAL_R2 | DIGITAL_L1 | DIGITAL_L2 | DIGITAL_X | DIGITAL_A | DIGITAL_B

datatype colour = RED | DARK_RED | GREEN | DARK_GREEN | BLACK | WHITE | YELLOW

datatype effect =
    LeftMove int
  | RightMove int
  | IntakeMove int
  | OuttakeMove int
  | MidScoringSet bool
  | DescoreSet bool
  | UnloaderSet bool
  | ImuSetHeading real
  | MasterPrint nat string "nat option"
  | MasterRumble string
  | ScreenSetPen colour
  | ScreenFillCircle int int int
  | ScreenFillRect int int int int
  | ScreenPrint int int string "nat option"
  | Delay nat

text \<open>
  The stored file at item granularity, as \<open>fread\<close> with item count 1 sees it: the
  32-bit count when the file holds at least four bytes, then the complete
  \<open>sizeof(RecordedFrame)\<close> blocks that follow. A trailing incomplete block is a short
  read and is therefore not represented. The byte layout of a block is the compiler's and
  is not modelled: writing and reading a block copy the same object representation.
\<close>

datatype stored = Stored (count_field: "u32 option") (blocks: "RecordedFrame list")

record world =
  now :: u32
  ctl_analog_left_y :: "u32 \<Rightarrow> int"
  ctl_analog_right_y :: "u32 \<Rightarrow> int"
  ctl_digital :: "u32 \<Rightarrow> button \<Rightarrow> bool"
  imu_heading :: "u32 \<Rightarrow> real"
  left_motors :: int
  right_motors :: int
  Intake :: int
  Outtake :: int
  MidScoring :: bool
  Descore :: bool
  Unloader :: bool
  sd_writable :: bool
  sd_space :: nat
  sd_file :: "stored option"
  intakeForward :: bool
  intakeReverse :: bool
  outtakeForward :: bool
  outtakeReverse :: bool
  midScoring :: bool
  descore :: bool
  unloader :: bool
  trace :: "effect list"

definition emit :: "effect \<Rightarrow> world \<Rightarrow> world" where
  "emit e w = w\<lparr>trace := trace w @ [e]\<rparr>"

definition millis :: "world \<Rightarrow> u32" where
  "millis w = now w"

definition delay :: "nat \<Rightarrow> world \<Rightarrow> world" where
  "delay d w = emit (Delay d) (w\<lparr>now := now w + of_nat d\<rparr>)"

definition master_get_digital :: "world \<Rightarrow> button \<Rightarrow> bool" where
  "master_get_digital w b = ctl_digital w (now w) b"

definition master_get_analog_left_y :: "world \<Rightarrow> int" where
  "master_get_analog_left_y w = ctl_analog_left_y w (now w)"

definition master_get_analog_right_y :: "world \<Rightarrow> int" where
  "master_get_analog_right_y w = ctl_analog_right_y w (now w)"

definition imu_get_heading :: "world \<Rightarrow> real" where
  "imu_get_heading w = imu_heading w (now w)"

definition imu_set_heading :: "real \<Rightarrow> world \<Rightarrow> world" where
  "imu_set_heading h w = emit (ImuSetHeading h) w"

definition master_print :: "nat \<Rightarrow> string \<Rightarrow> nat option \<Rightarrow> world \<Rightarrow> world" where
  "master_print line fmt arg w = emit (MasterPrint line fmt arg) w"

definition master_rumble :: "string \<Rightarrow> world \<Rightarrow> world" where
  "master_rumble p w = emit (MasterRumble p) w"

definition screen_set_pen :: "colour \<Rightarrow> world \<Rightarrow> world" where
  "screen_set_pen c w = emit (ScreenSetPen c) w"

definition screen_fill_circle :: "int \<Rightarrow> int \<Rightarrow> int \<Rightarrow> world \<Rightarrow> world" where
  "screen_fill_circle x y r w = emit (ScreenFillCircle x y r) w"

definition screen_fill_rect :: "int \<Rightarrow> int \<Rightarrow> int \<Rightarrow> int \<Rightarrow> world \<Rightarrow> world" where
  "screen_fill_rect x0 y0 x1 y1 w = emit (ScreenFillRect x0 y0 x1 y1) w"

definition screen_print :: "int \<Rightarrow> int \<Rightarrow> string \<Rightarrow> nat option \<Rightarrow> world \<Rightarrow> world" where
  "screen_print x y fmt arg w = emit (ScreenPrint x y fmt arg) w"

definition left_motors_move :: "int \<Rightarrow> world \<Rightarrow> world" where
  "left_motors_move v w = emit (LeftMove v) (w\<lparr>left_motors := v\<rparr>)"

definition right_motors_move :: "int \<Rightarrow> world \<Rightarrow> world" where
  "right_motors_move v w = emit (RightMove v) (w\<lparr>right_motors := v\<rparr>)"

definition Intake_move :: "int \<Rightarrow> world \<Rightarrow> world" where
  "Intake_move v w = emit (IntakeMove v) (w\<lparr>Intake := v\<rparr>)"

definition Outtake_move :: "int \<Rightarrow> world \<Rightarrow> world" where
  "Outtake_move v w = emit (OuttakeMove v) (w\<lparr>Outtake := v\<rparr>)"

definition MidScoring_set_value :: "bool \<Rightarrow> world \<Rightarrow> world" where
  "MidScoring_set_value v w = emit (MidScoringSet v) (w\<lparr>MidScoring := v\<rparr>)"

definition Descore_set_value :: "bool \<Rightarrow> world \<Rightarrow> world" where
  "Descore_set_value v w = emit (DescoreSet v) (w\<lparr>Descore := v\<rparr>)"

definition Unloader_set_value :: "bool \<Rightarrow> world \<Rightarrow> world" where
  "Unloader_set_value v w = emit (UnloaderSet v) (w\<lparr>Unloader := v\<rparr>)"

lemmas io_defs = emit_def millis_def delay_def master_get_digital_def
  master_get_analog_left_y_def master_get_analog_right_y_def imu_get_heading_def
  imu_set_heading_def master_print_def master_rumble_def screen_set_pen_def
  screen_fill_circle_def screen_fill_rect_def screen_print_def left_motors_move_def
  right_motors_move_def Intake_move_def Outtake_move_def MidScoring_set_value_def
  Descore_set_value_def Unloader_set_value_def

section \<open>Helpers (src/auton\_replay.cpp, lines 9--25)\<close>

definition packButtons :: "world \<Rightarrow> u8" where
  "packButtons w =
    (let buttons = (0 :: u8);
         buttons = (if master_get_digital w DIGITAL_R1 then buttons OR push_bit BTN_R1 1 else buttons);
         buttons = (if master_get_digital w DIGITAL_R2 then buttons OR push_bit BTN_R2 1 else buttons);
         buttons = (if master_get_digital w DIGITAL_L1 then buttons OR push_bit BTN_L1 1 else buttons);
         buttons = (if master_get_digital w DIGITAL_L2 then buttons OR push_bit BTN_L2 1 else buttons);
         buttons = (if master_get_digital w DIGITAL_X then buttons OR push_bit BTN_X 1 else buttons);
         buttons = (if master_get_digital w DIGITAL_A then buttons OR push_bit BTN_A 1 else buttons);
         buttons = (if master_get_digital w DIGITAL_B then buttons OR push_bit BTN_B 1 else buttons)
     in buttons)"

text \<open>\<open>(current & (1 << bit)) && !(prev & (1 << bit))\<close>\<close>

definition wasPressed :: "u8 \<Rightarrow> u8 \<Rightarrow> nat \<Rightarrow> bool" where
  "wasPressed current prev b =
     ((current AND push_bit b 1) \<noteq> 0 \<and> \<not> ((prev AND push_bit b 1) \<noteq> 0))"

section \<open>Recorder (lines 27--77, 248--256, 313--334)\<close>

definition drawStatusIndicator :: "AutonReplay \<Rightarrow> world \<Rightarrow> world" where
  "drawStatusIndicator a w =
    (let w = screen_set_pen BLACK w;
         w = screen_fill_rect 350 0 480 50 w
     in if isRecording a then
          (let w = screen_set_pen RED w;
               w = screen_fill_circle 460 20 15 w;
               w = screen_set_pen WHITE w
           in screen_print 360 10 ''REC'' None w)
        else if isPlaying a then
          (let w = screen_set_pen GREEN w;
               w = screen_fill_circle 460 20 15 w;
               w = screen_set_pen WHITE w
           in screen_print 360 10 ''PLAY'' None w)
        else if recording a \<noteq> [] then
          (let w = screen_set_pen YELLOW w;
               w = screen_fill_circle 460 20 15 w;
               w = screen_set_pen WHITE w
           in screen_print 360 10 ''%d frm'' (Some (length (recording a))) w)
        else w)"

definition startRecording :: "AutonReplay \<Rightarrow> world \<Rightarrow> AutonReplay \<times> world" where
  "startRecording a w =
    (let a = a\<lparr>recording := []\<rparr>;
         a = a\<lparr>recordStartTime := millis w\<rparr>;
         a = a\<lparr>isRecording := True\<rparr>;
         w = imu_set_heading 0 w;
         w = master_print 0 ''RECORDING...       '' None w;
         w = master_rumble ''-'' w;
         w = drawStatusIndicator a w
     in (a, w))"

definition recordFrame :: "AutonReplay \<Rightarrow> world \<Rightarrow> AutonReplay \<times> world" where
  "recordFrame a w =
    (if \<not> isRecording a then (a, w)
     else
       (let frame = \<lparr> timestamp = millis w - recordStartTime a,
                       leftStick = word_of_int (master_get_analog_left_y w),
                       rightStick = word_of_int (master_get_analog_right_y w),
                       heading = imu_get_heading w,
                       buttons = packButtons w \<rparr>;
            a = a\<lparr>recording := recording a @ [frame]\<rparr>;
            w = (if (timestamp frame div 500) mod 2 = 0 then screen_set_pen RED w
                 else screen_set_pen DARK_RED w);
            w = screen_fill_circle 460 20 15 w
        in (a, w)))"

definition clearRecording :: "AutonReplay \<Rightarrow> world \<Rightarrow> AutonReplay \<times> world" where
  "clearRecording a w =
    (let a = a\<lparr>recording := []\<rparr>;
         w = master_print 0 ''RECORDING CLEARED  '' None w
     in (a, w))"

definition getFrameCount :: "AutonReplay \<Rightarrow> nat" where
  "getFrameCount a = length (recording a)"

definition getDuration :: "AutonReplay \<Rightarrow> u32" where
  "getDuration a = (if recording a = [] then 0 else timestamp (last (recording a)))"

definition setIMUCorrectionGain :: "real \<Rightarrow> AutonReplay \<Rightarrow> AutonReplay" where
  "setIMUCorrectionGain gain a = a\<lparr>imuCorrectionGain := gain\<rparr>"

section \<open>Persistence (lines 258--311)\<close>

text \<open>
  \<open>sizeof(uint32_t)\<close> and \<open>sizeof(RecordedFrame)\<close> (4 + 1 + 1 + 2 padding + 4 + 1 +
  3 padding with 4-byte alignment of \<open>uint32_t\<close> and \<open>float\<close>).
\<close>

definition sizeof_uint32 :: nat where "sizeof_uint32 = 4"
definition sizeof_RecordedFrame :: nat where "sizeof_RecordedFrame = 16"

text \<open>
  \<open>fopen(path, "wb")\<close> truncates the file. \<open>fwrite\<close> of one item returns the number of
  items written: 1 when the device still has room for the whole item, otherwise 0, and the
  device is then full (an incomplete item is a short read for every later reader).
\<close>

definition fopen_wb :: "world \<Rightarrow> world option" where
  "fopen_wb w = (if sd_writable w then Some (w\<lparr>sd_file := Some (Stored None [])\<rparr>) else None)"

definition fwrite_count :: "u32 \<Rightarrow> world \<Rightarrow> nat \<times> world" where
  "fwrite_count n w =
    (if sizeof_uint32 \<le> sd_space w
     then (1, w\<lparr>sd_space := sd_space w - sizeof_uint32, sd_file := Some (Stored (Some n) [])\<rparr>)
     else (0, w\<lparr>sd_space := 0\<rparr>))"

definition fwrite_frame :: "RecordedFrame \<Rightarrow> world \<Rightarrow> nat \<times> world" where
  "fwrite_frame fr w =
    (if sizeof_RecordedFrame \<le> sd_space w
     then (1, w\<lparr>sd_space := sd_space w - sizeof_RecordedFrame,
                sd_file := (case sd_file w of
                              None \<Rightarrow> None
                            | Some (Stored c bs) \<Rightarrow> Some (Stored c (bs @ [fr])))\<rparr>)
     else (0, w\<lparr>sd_space := 0\<rparr>))"

text \<open>The results of both \<open>fwrite\<close> calls are discarded, as in the source.\<close>

definition saveToSD :: "AutonReplay \<Rightarrow> world \<Rightarrow> bool \<times> world" where
  "saveToSD a w =
    (case fopen_wb w of
       None \<Rightarrow> (False, w)
     | Some w \<Rightarrow>
        (let frameCount = (of_nat (length (recording a)) :: u32);
             w = snd (fwrite_count frameCount w);
             w = foldl (\<lambda>w frame. snd (fwrite_frame frame w)) w (recording a)
         in (True, w)))"

definition stopRecording :: "bool \<Rightarrow> AutonReplay \<Rightarrow> world \<Rightarrow> AutonReplay \<times> world" where
  "stopRecording save a w =
    (let a = a\<lparr>isRecording := False\<rparr>;
         w = master_print 0 ''STOPPED: %d frames '' (Some (length (recording a))) w;
         w = master_rumble ''.'' w;
         w = (if save then
                (case saveToSD a w of
                   (True, w) \<Rightarrow> master_print 1 ''SAVED TO SD!       '' None w
                 | (False, w) \<Rightarrow> master_print 1 ''SD SAVE FAILED!    '' None w)
              else w);
         w = drawStatusIndicator a w
     in (a, w))"

text \<open>
  \<open>fread\<close> of one frame at block position \<open>i\<close>: the block when the file holds it,
  \<open>None\<close> for a short read.
\<close>

definition fread_frame :: "RecordedFrame list \<Rightarrow> nat \<Rightarrow> RecordedFrame option" where
  "fread_frame bs i = (if i < length bs then Some (bs ! i) else None)"

text \<open>The value-initialised element \<open>resize\<close> fills the vector with.\<close>

definition zero_frame :: RecordedFrame where
  "zero_frame = \<lparr> timestamp = 0, leftStick = 0, rightStick = 0, heading = 0, buttons = 0 \<rparr>"

text \<open>
  The read loop \<open>for (i = 0; i < frameCount; i++)\<close>: \<open>None\<close> when a read is short,
  otherwise the filled vector.
\<close>

function read_frames :: "nat \<Rightarrow> nat \<Rightarrow> RecordedFrame list \<Rightarrow> RecordedFrame list
    \<Rightarrow> RecordedFrame list option" where
  "read_frames i frameCount bs rec =
    (if i < frameCount then
       (case fread_frame bs i of
          None \<Rightarrow> None
        | Some fr \<Rightarrow> read_frames (i + 1) frameCount bs (rec[i := fr]))
     else Some rec)"
  by pat_completeness auto
termination
  by (relation "measure (\<lambda>(i, frameCount, bs, rec). frameCount - i)") auto

declare read_frames.simps [simp del]

definition loadFromSD :: "AutonReplay \<Rightarrow> world \<Rightarrow> bool \<times> AutonReplay \<times> world" where
  "loadFromSD a w =
    (case sd_file w of
       None \<Rightarrow> (False, a, w)
     | Some file \<Rightarrow>
        (case count_field file of
           None \<Rightarrow> (False, a, w)
         | Some frameCount \<Rightarrow>
            if frameCount > 15000 then (False, a, w)
            else
              (let a = a\<lparr>recording := []\<rparr>;
                   a = a\<lparr>recording := replicate (unat frameCount) zero_frame\<rparr>
               in case read_frames 0 (unat frameCount) (blocks file) (recording a) of
                    None \<Rightarrow> (False, a\<lparr>recording := []\<rparr>, w)
                  | Some rec \<Rightarrow>
                      (True, a\<lparr>recording := rec\<rparr>,
                       master_print 0 ''LOADED: %d frames  '' (Some (unat frameCount)) w))))"

section \<open>Heading correction (lines 79--103)\<close>

text \<open>The two normalisation loops.\<close>

function wrap_down :: "real \<Rightarrow> real" where
  "wrap_down error = (if error > 180 then wrap_down (error - 360) else error)"
  by pat_completeness auto
termination
proof (relation "measure (\<lambda>e. nat \<lceil>(e - 180) / 360\<rceil>)")
  show "wf (measure (\<lambda>e. nat \<lceil>(e - 180) / 360\<rceil>))" by simp
next
  fix error :: real
  assume h: "180 < error"
  have eq: "(error - 360 - 180) / 360 = (error - 180) / 360 - 1"
    by (simp add: field_simps)
  have pos: "0 < \<lceil>(error - 180) / 360\<rceil>"
    using h by (simp add: ceiling_less_iff)
  have "\<lceil>(error - 360 - 180) / 360\<rceil> = \<lceil>(error - 180) / 360\<rceil> - 1"
    unfolding eq by simp
  with pos show "(error - 360, error) \<in> measure (\<lambda>e. nat \<lceil>(e - 180) / 360\<rceil>)"
    by simp
qed

function wrap_up :: "real \<Rightarrow> real" where
  "wrap_up error = (if error < - 180 then wrap_up (error + 360) else error)"
  by pat_completeness auto
termination
proof (relation "measure (\<lambda>e. nat \<lceil>(- 180 - e) / 360\<rceil>)")
  show "wf (measure (\<lambda>e. nat \<lceil>(- 180 - e) / 360\<rceil>))" by simp
next
  fix error :: real
  assume h: "error < - 180"
  have eq: "(- 180 - (error + 360)) / 360 = (- 180 - error) / 360 - 1"
    by (simp add: field_simps)
  have pos: "0 < \<lceil>(- 180 - error) / 360\<rceil>"
    using h by (simp add: ceiling_less_iff)
  have "\<lceil>(- 180 - (error + 360)) / 360\<rceil> = \<lceil>(- 180 - error) / 360\<rceil> - 1"
    unfolding eq by simp
  with pos show "(error + 360, error) \<in> measure (\<lambda>e. nat \<lceil>(- 180 - e) / 360\<rceil>)"
    by simp
qed

declare wrap_down.simps [simp del] wrap_up.simps [simp del]

definition wrap180 :: "real \<Rightarrow> real" where
  "wrap180 error = wrap_up (wrap_down error)"

text \<open>\<open>static_cast<int>\<close> of a floating value: truncation towards zero.\<close>

definition static_cast_int :: "real \<Rightarrow> int" where
  "static_cast_int x = (if 0 \<le> x then \<lfloor>x\<rfloor> else \<lceil>x\<rceil>)"

definition clamp_correction :: "real \<Rightarrow> real" where
  "clamp_correction correction =
    (let correction = (if correction > 30 then 30 else correction);
         correction = (if correction < - 30 then - 30 else correction)
     in correction)"

definition clamp_motor :: "int \<Rightarrow> int" where
  "clamp_motor v =
    (let v = (if v > 127 then 127 else v);
         v = (if v < - 127 then - 127 else v)
     in v)"

text \<open>The function returns the new values of its two reference parameters.\<close>

definition applyHeadingCorrection :: "AutonReplay \<Rightarrow> int \<Rightarrow> int \<Rightarrow> real \<Rightarrow> real \<Rightarrow> int \<times> int" where
  "applyHeadingCorrection a left right targetHeading currentHeading =
    (let error = targetHeading - currentHeading;
         error = wrap180 error;
         correction = error * imuCorrectionGain a;
         correction = clamp_correction correction;
         left = static_cast_int (real_of_int left - correction);
         right = static_cast_int (real_of_int right + correction);
         left = clamp_motor left;
         right = clamp_motor right
     in (left, right))"

section \<open>Playback (lines 105--246)\<close>

text \<open>
  The toggle section of the loop body (lines 150--216), one definition per \<open>if\<close>
  block. Each latch is a function-local \<open>static bool\<close>: its initialiser runs once per
  process, and nothing else assigns it.
\<close>

definition toggle_R1 :: "u8 \<Rightarrow> u8 \<Rightarrow> world \<Rightarrow> world" where
  "toggle_R1 currentButtons prev w =
    (if wasPressed currentButtons prev BTN_R1 then
       (let w = w\<lparr>intakeForward := \<not> intakeForward w\<rparr>
        in if intakeForward w then Intake_move 127 w else Intake_move 0 w)
     else w)"

definition toggle_R2 :: "u8 \<Rightarrow> u8 \<Rightarrow> world \<Rightarrow> world" where
  "toggle_R2 currentButtons prev w =
    (if wasPressed currentButtons prev BTN_R2 then
       (let w = w\<lparr>intakeReverse := \<not> intakeReverse w\<rparr>
        in if intakeReverse w then Intake_move (- 127) w else Intake_move 0 w)
     else w)"

definition toggle_L1 :: "u8 \<Rightarrow> u8 \<Rightarrow> world \<Rightarrow> world" where
  "toggle_L1 currentButtons prev w =
    (if wasPressed currentButtons prev BTN_L1 then
       (let w = w\<lparr>outtakeForward := \<not> outtakeForward w\<rparr>
        in if outtakeForward w then Outtake_move 127 w else Outtake_move 0 w)
     else w)"

definition toggle_L2 :: "u8 \<Rightarrow> u8 \<Rightarrow> world \<Rightarrow> world" where
  "toggle_L2 currentButtons prev w =
    (if wasPressed currentButtons prev BTN_L2 then
       (let w = w\<lparr>outtakeReverse := \<not> outtakeReverse w\<rparr>
        in if outtakeReverse w then Outtake_move (- 127) w else Outtake_move 0 w)
     else w)"

definition toggle_X :: "u8 \<Rightarrow> u8 \<Rightarrow> world \<Rightarrow> world" where
  "toggle_X currentButtons prev w =
    (if wasPressed currentButtons prev BTN_X then
       (let w = w\<lparr>midScoring := \<not> midScoring w\<rparr>;
            w = MidScoring_set_value (midScoring w) w
        in if midScoring w then Outtake_move (- 127) (Intake_move (- 127) w) else w)
     else w)"

definition toggle_A :: "u8 \<Rightarrow> u8 \<Rightarrow> world \<Rightarrow> world" where
  "toggle_A currentButtons prev w =
    (if wasPressed currentButtons prev BTN_A then
       (let w = w\<lparr>descore := \<not> descore w\<rparr>
        in Descore_set_value (descore w) w)
     else w)"

definition toggle_B :: "u8 \<Rightarrow> u8 \<Rightarrow> world \<Rightarrow> world" where
  "toggle_B currentButtons prev w =
    (if wasPressed currentButtons prev BTN_B then
       (let w = w\<lparr>unloader := \<not> unloader w\<rparr>
        in Unloader_set_value (unloader w) w)
     else w)"

definition toggle_buttons :: "u8 \<Rightarrow> u8 \<Rightarrow> world \<Rightarrow> world" where
  "toggle_buttons currentButtons prev w =
    (let w = toggle_R1 currentButtons prev w;
         w = toggle_R2 currentButtons prev w;
         w = toggle_L1 currentButtons prev w;
         w = toggle_L2 currentButtons prev w;
         w = toggle_X currentButtons prev w;
         w = toggle_A currentButtons prev w;
         w = toggle_B currentButtons prev w
     in w)"

text \<open>The body of the inner loop (lines 135--219), without the increment of the index.\<close>

definition dispatch_frame :: "nat \<Rightarrow> AutonReplay \<Rightarrow> world \<Rightarrow> AutonReplay \<times> world" where
  "dispatch_frame frameIndex a w =
    (let frame = recording a ! frameIndex;
         left = sint (leftStick frame);
         right = sint (rightStick frame);
         currentHeading = imu_get_heading w;
         (left, right) = applyHeadingCorrection a left right (heading frame) currentHeading;
         w = left_motors_move left w;
         w = right_motors_move right w;
         currentButtons = buttons frame;
         w = toggle_buttons currentButtons (prevButtons a) w;
         a = a\<lparr>prevButtons := currentButtons\<rparr>
     in (a, w))"

lemma dispatch_frame_recording:
  "dispatch_frame i a w = (a', w') \<Longrightarrow> recording a' = recording a"
  by (auto simp: dispatch_frame_def Let_def split: prod.splits)

text \<open>
  The inner loop (line 134). The index test comes first in the source, so the frame is
  only read when the index is in range.
\<close>

function due_frames :: "u32 \<Rightarrow> nat \<Rightarrow> AutonReplay \<Rightarrow> world \<Rightarrow> nat \<times> AutonReplay \<times> world" where
  "due_frames elapsed frameIndex a w =
    (if frameIndex < length (recording a) then
       (if timestamp (recording a ! frameIndex) \<le> elapsed then
          due_frames elapsed (frameIndex + 1)
            (fst (dispatch_frame frameIndex a w)) (snd (dispatch_frame frameIndex a w))
        else (frameIndex, a, w))
     else (frameIndex, a, w))"
  by pat_completeness auto
termination
  by (relation "measure (\<lambda>(elapsed, frameIndex, a, w). length (recording a) - frameIndex)")
     (auto simp: dispatch_frame_recording split: prod.splits)

declare due_frames.simps [simp del]

text \<open>One pass of the outer loop body (lines 131--230).\<close>

definition poll :: "u32 \<Rightarrow> nat \<times> AutonReplay \<times> world \<Rightarrow> nat \<times> AutonReplay \<times> world" where
  "poll playStartTime s =
    (case s of (frameIndex, a, w) \<Rightarrow>
      (let elapsed = millis w - playStartTime;
           (frameIndex, a, w) = due_frames elapsed frameIndex a w;
           w = (if (elapsed div 500) mod 2 = 0 then screen_set_pen GREEN w
                else screen_set_pen DARK_GREEN w);
           w = screen_fill_circle 460 20 15 w;
           w = delay 10 w
       in (frameIndex, a, w)))"

text \<open>
  The outer loop (line 130). Nothing in the source bounds the number of polls, so the loop
  is a partial function: \<open>None\<close> stands for a loop that never exits.
\<close>

partial_function (option) play_loop ::
    "u32 \<Rightarrow> nat \<times> AutonReplay \<times> world \<Rightarrow> (nat \<times> AutonReplay \<times> world) option" where
  "play_loop playStartTime s =
    (if fst s < length (recording (fst (snd s)))
     then play_loop playStartTime (poll playStartTime s)
     else Some s)"

text \<open>
  Lines 106--112: \<open>Inl\<close> is the early return after the message, \<open>Inr\<close> falls through.
\<close>

definition playback_load :: "AutonReplay \<Rightarrow> world \<Rightarrow> AutonReplay \<times> world + AutonReplay \<times> world" where
  "playback_load a w =
    (if recording a = [] then
       (case loadFromSD a w of
          (ok, a, w) \<Rightarrow>
            if \<not> ok then Inl (a, master_print 0 ''NO RECORDING!      '' None w)
            else Inr (a, w))
     else Inr (a, w))"

text \<open>Lines 114--128: the state in which the loop is entered, with \<open>playStartTime\<close>.\<close>

definition playback_start :: "AutonReplay \<Rightarrow> world \<Rightarrow> u32 \<times> AutonReplay \<times> world" where
  "playback_start a w =
    (let a = a\<lparr>isPlaying := True\<rparr>;
         a = a\<lparr>prevButtons := 0\<rparr>;
         w = imu_set_heading 0 w;
         w = delay 50 w;
         playStartTime = millis w;
         w = master_print 0 ''REPLAYING...       '' None w;
         w = screen_set_pen GREEN w;
         w = screen_fill_circle 460 20 15 w
     in (playStartTime, a, w))"

text \<open>Lines 233--245.\<close>

definition playback_finish :: "AutonReplay \<Rightarrow> world \<Rightarrow> AutonReplay \<times> world" where
  "playback_finish a w =
    (let w = left_motors_move 0 w;
         w = right_motors_move 0 w;
         w = Intake_move 0 w;
         w = Outtake_move 0 w;
         a = a\<lparr>isPlaying := False\<rparr>;
         w = master_print 0 ''REPLAY COMPLETE!   '' None w;
         w = screen_set_pen BLACK w;
         w = screen_fill_circle 460 20 15 w
     in (a, w))"

definition playback :: "AutonReplay \<Rightarrow> world \<Rightarrow> (AutonReplay \<times> world) option" where
  "playback a w =
    (case playback_load a w of
       Inl r \<Rightarrow> Some r
     | Inr (a, w) \<Rightarrow>
        (case playback_start a w of
           (playStartTime, a, w) \<Rightarrow>
             (case play_loop playStartTime (0, a, w) of
                None \<Rightarrow> None
              | Some (frameIndex, a, w) \<Rightarrow> Some (playback_finish a w))))"

section \<open>Concrete inputs\<close>

text \<open>
  A world at clock 0 with an idle controller, a sensor that reads 0, all actuators
  neutral, all latches at their initialiser, no SD card, and nothing commanded yet.
\<close>

definition world0 :: world where
  "world0 = \<lparr> now = 0,
     ctl_analog_left_y = (\<lambda>t. 0), ctl_analog_right_y = (\<lambda>t. 0),
     ctl_digital = (\<lambda>t b. False), imu_heading = (\<lambda>t. 0),
     left_motors = 0, right_motors = 0, Intake = 0, Outtake = 0,
     MidScoring = False, Descore = False, Unloader = False,
     sd_writable = False, sd_space = 0, sd_file = None,
     intakeForward = False, intakeReverse = False, outtakeForward = False,
     outtakeReverse = False, midScoring = False, descore = False, unloader = False,
     trace = [] \<rparr>"

text \<open>A frame at time \<open>t\<close> with both sticks at 100, heading 0 and the given button mask.\<close>

definition frame_at :: "u32 \<Rightarrow> u8 \<Rightarrow> RecordedFrame" where
  "frame_at t m = \<lparr> timestamp = t, leftStick = 100, rightStick = 100, heading = 0, buttons = m \<rparr>"

section \<open>Reading the state\<close>

text \<open>The seven latches in the bit order of the button mask (header, lines 14--20).\<close>

definition latches :: "world \<Rightarrow> bool list" where
  "latches w = [intakeForward w, intakeReverse w, outtakeForward w, outtakeReverse w,
     midScoring w, descore w, unloader w]"

text \<open>The formulas of the specification for the commanded drive outputs.\<close>

definition clamp :: "real \<Rightarrow> real \<Rightarrow> real \<Rightarrow> real" where
  "clamp x lo hi = max lo (min hi x)"

definition spec_correction :: "real \<Rightarrow> real \<Rightarrow> real \<Rightarrow> real" where
  "spec_correction gain target live = clamp (wrap180 (target - live) * gain) (- 30) 30"


text \<open>
  What holds in the world a call returns, projected by \<open>f\<close>; \<open>None\<close> when the call
  does not return.
\<close>

definition final :: "(world \<Rightarrow> 'a) \<Rightarrow> (AutonReplay \<times> world) option \<Rightarrow> 'a option" where
  "final f r = (case r of None \<Rightarrow> None | Some (a, w) \<Rightarrow> Some (f w))"

text \<open>
  Two \<open>playback\<close> calls in succession on the same object: the commands issued by the
  first call, the latches between the two calls, and the commands issued by the second.
\<close>

definition replayed_twice ::
    "AutonReplay \<Rightarrow> world \<Rightarrow> (effect list \<times> bool list \<times> effect list) option" where
  "replayed_twice a w =
    (case playback a w of
       None \<Rightarrow> None
     | Some (a1, w1) \<Rightarrow>
        (case playback a1 w1 of
           None \<Rightarrow> None
         | Some (a2, w2) \<Rightarrow>
             Some (drop (length (trace w)) (trace w1), latches w1,
                   drop (length (trace w1)) (trace w2))))"

section \<open>Sequences of public operations\<close>

text \<open>
  The public interface of the class, and \<open>Wait\<close> for the time that passes in the
  caller between two calls. A sequence stops with \<open>None\<close> when a \<open>playback\<close> call in it
  does not return.
\<close>

datatype operation =
    StartRecording
  | StopRecording bool
  | RecordFrame
  | Playback
  | ClearRecording
  | SaveToSD
  | LoadFromSD
  | SetIMUCorrectionGain real
  | DrawStatusIndicator
  | Wait nat

fun run_op :: "operation \<Rightarrow> AutonReplay \<times> world \<Rightarrow> (AutonReplay \<times> world) option" where
  "run_op StartRecording (a, w) = Some (startRecording a w)"
| "run_op (StopRecording save) (a, w) = Some (stopRecording save a w)"
| "run_op RecordFrame (a, w) = Some (recordFrame a w)"
| "run_op Playback (a, w) = playback a w"
| "run_op ClearRecording (a, w) = Some (clearRecording a w)"
| "run_op SaveToSD (a, w) = Some (a, snd (saveToSD a w))"
| "run_op LoadFromSD (a, w) = Some (snd (loadFromSD a w))"
| "run_op (SetIMUCorrectionGain gain) (a, w) = Some (setIMUCorrectionGain gain a, w)"
| "run_op DrawStatusIndicator (a, w) = Some (a, drawStatusIndicator a w)"
| "run_op (Wait d) (a, w) = Some (a, delay d w)"

fun run_ops :: "operation list \<Rightarrow> AutonReplay \<times> world \<Rightarrow> (AutonReplay \<times> world) option" where
  "run_ops [] s = Some s"
| "run_ops (x # xs) s = (case run_op x s of None \<Rightarrow> None | Some s' \<Rightarrow> run_ops xs s')"

text \<open>Recording has been started and one frame recorded; nothing has stopped it.\<close>

definition recording_session :: "AutonReplay \<times> world" where
  "recording_session = (case startRecording autonReplay world0 of (a, w) \<Rightarrow> recordFrame a w)"

section \<open>Basic facts\<close>

lemma world0_sel [simp]:
  "now world0 = 0" "imu_heading world0 = (\<lambda>t. 0)" "trace world0 = []"
  "left_motors world0 = 0" "right_motors world0 = 0" "Intake world0 = 0" "Outtake world0 = 0"
  "MidScoring world0 = False" "Descore world0 = False" "Unloader world0 = False"
  "sd_writable world0 = False" "sd_space world0 = 0" "sd_file world0 = None"
  "intakeForward world0 = False" "intakeReverse world0 = False"
  "outtakeForward world0 = False" "outtakeReverse world0 = False"
  "midScoring world0 = False" "descore world0 = False" "unloader world0 = False"
  by (simp_all add: world0_def)

lemma autonReplay_sel [simp]:
  "recording autonReplay = []" "recordStartTime autonReplay = 0"
  "isRecording autonReplay = False" "isPlaying autonReplay = False"
  "prevButtons autonReplay = 0" "imuCorrectionGain autonReplay = 2"
  by (simp_all add: autonReplay_def)

lemma frame_at_sel [simp]:
  "timestamp (frame_at t m) = t" "leftStick (frame_at t m) = 100"
  "rightStick (frame_at t m) = 100" "heading (frame_at t m) = 0" "buttons (frame_at t m) = m"
  by (simp_all add: frame_at_def)


lemmas toggle_defs = toggle_R1_def toggle_R2_def toggle_L1_def toggle_L2_def toggle_X_def
  toggle_A_def toggle_B_def

subsection \<open>Each block flips its own latch on a press and leaves the other six alone\<close>













lemma drive_toggle [simp]:
  "left_motors (toggle_R1 c p w) = left_motors w" "right_motors (toggle_R1 c p w) = right_motors w"
  "left_motors (toggle_R2 c p w) = left_motors w" "right_motors (toggle_R2 c p w) = right_motors w"
  "left_motors (toggle_L1 c p w) = left_motors w" "right_motors (toggle_L1 c p w) = right_motors w"
  "left_motors (toggle_L2 c p w) = left_motors w" "right_motors (toggle_L2 c p w) = right_motors w"
  "left_motors (toggle_X c p w) = left_motors w" "right_motors (toggle_X c p w) = right_motors w"
  "left_motors (toggle_A c p w) = left_motors w" "right_motors (toggle_A c p w) = right_motors w"
  "left_motors (toggle_B c p w) = left_motors w" "right_motors (toggle_B c p w) = right_motors w"
  by (simp_all add: toggle_defs Let_def io_defs)



subsection \<open>The normalisation loops and the correction\<close>


lemma wrap_down_id: "e \<le> 180 \<Longrightarrow> wrap_down e = e"
  by (subst wrap_down.simps) simp



lemma wrap_up_id: "- 180 \<le> e \<Longrightarrow> wrap_up e = e"
  by (subst wrap_up.simps) simp





lemma wrap180_id: "- 180 \<le> e \<Longrightarrow> e \<le> 180 \<Longrightarrow> wrap180 e = e"
  by (simp add: wrap180_def wrap_down_id wrap_up_id)



lemma applyHeadingCorrection_eq:
  "applyHeadingCorrection a left right target live =
     (clamp_motor (static_cast_int (real_of_int left - spec_correction (imuCorrectionGain a) target live)),
      clamp_motor (static_cast_int (real_of_int right + spec_correction (imuCorrectionGain a) target live)))"
  by (simp add: applyHeadingCorrection_def spec_correction_def clamp_def clamp_correction_def Let_def
       max_def min_def)


subsection \<open>Saving and loading\<close>

lemma read_frames_complete:
  "i \<le> n \<Longrightarrow> n \<le> length bs \<Longrightarrow> length rec = n
   \<Longrightarrow> read_frames i n bs rec = Some (take i rec @ drop i (take n bs))"
proof (induction i n bs rec rule: read_frames.induct)
  case (1 i frameCount bs rec)
  show ?case
  proof (cases "i < frameCount")
    case True
    then have rd: "fread_frame bs i = Some (bs ! i)"
      using "1.prems" by (simp add: fread_frame_def)
    have "read_frames (i + 1) frameCount bs (rec[i := bs ! i])
            = Some (take (i + 1) (rec[i := bs ! i]) @ drop (i + 1) (take frameCount bs))"
      using "1.IH" [OF True rd] True "1.prems" by simp
    moreover have "take (i + 1) (rec[i := bs ! i]) = take i rec @ [bs ! i]"
      using True "1.prems" by (simp add: take_Suc_conv_app_nth)
    moreover have "drop i (take frameCount bs) = bs ! i # drop (i + 1) (take frameCount bs)"
      using True "1.prems" by (simp add: Cons_nth_drop_Suc [symmetric])
    ultimately show ?thesis
      using True rd by (subst read_frames.simps) simp
  next
    case False
    then show ?thesis
      using "1.prems" by (subst read_frames.simps) simp
  qed
qed

lemma read_frames_short:
  "length bs < n \<Longrightarrow> i \<le> length bs \<Longrightarrow> read_frames i n bs rec = None"
proof (induction i n bs rec rule: read_frames.induct)
  case (1 i frameCount bs rec)
  have lt: "i < frameCount" using "1.prems" by simp
  show ?case
  proof (cases "i < length bs")
    case True
    then have rd: "fread_frame bs i = Some (bs ! i)" by (simp add: fread_frame_def)
    have "read_frames (i + 1) frameCount bs (rec[i := bs ! i]) = None"
      using "1.IH" [OF lt rd] True "1.prems" by simp
    then show ?thesis using lt rd by (subst read_frames.simps) simp
  next
    case False
    then have "fread_frame bs i = None" by (simp add: fread_frame_def)
    then show ?thesis using lt by (subst read_frames.simps) simp
  qed
qed

lemma loadFromSD_no_file: "sd_file w = None \<Longrightarrow> loadFromSD a w = (False, a, w)"
  by (simp add: loadFromSD_def)

lemma loadFromSD_no_count:
  "sd_file w = Some (Stored None bs) \<Longrightarrow> loadFromSD a w = (False, a, w)"
  by (simp add: loadFromSD_def)

lemma loadFromSD_oversized:
  "sd_file w = Some (Stored (Some n) bs) \<Longrightarrow> 15000 < n \<Longrightarrow> loadFromSD a w = (False, a, w)"
  by (simp add: loadFromSD_def)

lemma loadFromSD_short:
  "sd_file w = Some (Stored (Some n) bs) \<Longrightarrow> n \<le> 15000 \<Longrightarrow> length bs < unat n
   \<Longrightarrow> loadFromSD a w = (False, a\<lparr>recording := []\<rparr>, w)"
  by (simp add: loadFromSD_def Let_def read_frames_short)

lemma loadFromSD_complete:
  "sd_file w = Some (Stored (Some n) bs) \<Longrightarrow> n \<le> 15000 \<Longrightarrow> unat n \<le> length bs
   \<Longrightarrow> loadFromSD a w = (True, a\<lparr>recording := take (unat n) bs\<rparr>,
          master_print 0 ''LOADED: %d frames  '' (Some (unat n)) w)"
  by (simp add: loadFromSD_def Let_def read_frames_complete)




subsection \<open>The playback loop\<close>

lemma now_toggle [simp]:
  "now (toggle_R1 c p w) = now w" "now (toggle_R2 c p w) = now w"
  "now (toggle_L1 c p w) = now w" "now (toggle_L2 c p w) = now w"
  "now (toggle_X c p w) = now w" "now (toggle_A c p w) = now w"
  "now (toggle_B c p w) = now w"
  by (simp_all add: toggle_defs Let_def io_defs)

lemma now_toggle_buttons [simp]: "now (toggle_buttons c p w) = now w"
  by (simp add: toggle_buttons_def Let_def)

lemma dispatch_frame_keeps [simp]:
  "recording (fst (dispatch_frame i a w)) = recording a"
  "isRecording (fst (dispatch_frame i a w)) = isRecording a"
  "isPlaying (fst (dispatch_frame i a w)) = isPlaying a"
  "now (snd (dispatch_frame i a w)) = now w"
  by (simp_all add: dispatch_frame_def Let_def io_defs split: prod.splits)

lemma due_frames_keeps:
  "recording (fst (snd (due_frames e i a w))) = recording a
   \<and> isRecording (fst (snd (due_frames e i a w))) = isRecording a
   \<and> isPlaying (fst (snd (due_frames e i a w))) = isPlaying a
   \<and> now (snd (snd (due_frames e i a w))) = now w
   \<and> i \<le> fst (due_frames e i a w)
   \<and> (i \<le> length (recording a) \<longrightarrow> fst (due_frames e i a w) \<le> length (recording a))"
proof (induction e i a w rule: due_frames.induct)
  case (1 elapsed frameIndex a w)
  show ?case
  proof (cases "frameIndex < length (recording a) \<and> timestamp (recording a ! frameIndex) \<le> elapsed")
    case True
    then have eq: "due_frames elapsed frameIndex a w
        = due_frames elapsed (frameIndex + 1) (fst (dispatch_frame frameIndex a w))
            (snd (dispatch_frame frameIndex a w))"
      by (subst due_frames.simps) simp
    from True "1.IH" show ?thesis
      unfolding eq by simp
  next
    case False
    then have "due_frames elapsed frameIndex a w = (frameIndex, a, w)"
      by (subst due_frames.simps) auto
    then show ?thesis by simp
  qed
qed

lemma due_frames_all:
  "i \<le> length (recording a)
   \<Longrightarrow> (\<And>j. j < length (recording a) \<Longrightarrow> timestamp (recording a ! j) \<le> e)
   \<Longrightarrow> fst (due_frames e i a w) = length (recording a)"
proof (induction e i a w rule: due_frames.induct)
  case (1 elapsed frameIndex a w)
  show ?case
  proof (cases "frameIndex < length (recording a)")
    case True
    then have due: "timestamp (recording a ! frameIndex) \<le> elapsed"
      using "1.prems" by simp
    have eq: "due_frames elapsed frameIndex a w
        = due_frames elapsed (frameIndex + 1) (fst (dispatch_frame frameIndex a w))
            (snd (dispatch_frame frameIndex a w))"
      using True due by (subst due_frames.simps) simp
    show ?thesis
      unfolding eq using "1.IH" [OF True due] True "1.prems" by simp
  next
    case False
    then have "due_frames elapsed frameIndex a w = (frameIndex, a, w)"
      by (subst due_frames.simps) auto
    then show ?thesis using False "1.prems" by simp
  qed
qed

lemma poll_keeps:
  "recording (fst (snd (poll st (i, a, w)))) = recording a
   \<and> isRecording (fst (snd (poll st (i, a, w)))) = isRecording a
   \<and> isPlaying (fst (snd (poll st (i, a, w)))) = isPlaying a
   \<and> now (snd (snd (poll st (i, a, w)))) = now w + 10
   \<and> i \<le> fst (poll st (i, a, w))
   \<and> (i \<le> length (recording a) \<longrightarrow> fst (poll st (i, a, w)) \<le> length (recording a))"
  using due_frames_keeps [of "now w - st" i a w]
  by (auto simp: poll_def Let_def io_defs split: prod.splits)

lemma poll_all:
  "i \<le> length (recording a)
   \<Longrightarrow> (\<And>j. j < length (recording a) \<Longrightarrow> timestamp (recording a ! j) \<le> now w - st)
   \<Longrightarrow> fst (poll st (i, a, w)) = length (recording a)"
  using due_frames_all [of i a "now w - st" w]
  by (auto simp: poll_def Let_def io_defs split: prod.splits)


lemma unat_elapsed_step:
  fixes x st :: u32
  assumes "unat (x - st) + 10 < 2 ^ 32"
  shows "unat (x + 10 - st) = unat (x - st) + 10"
proof -
  have eq: "x + 10 - st = (x - st) + 10" by simp
  have "unat ((x - st) + 10) = unat (x - st) + unat (10 :: u32)"
    using assms by (subst unat_add_lem [symmetric]) simp
  then have "unat ((x - st) + 10) = unat (x - st) + 10" by simp
  then show ?thesis by (simp only: eq)
qed

lemma unat_elapsed_step_le:
  fixes x st :: u32
  shows "unat (x + 10 - st) \<le> unat (x - st) + 10"
proof -
  have eq: "x + 10 - st = (x - st) + 10" by simp
  have "unat ((x - st) + 10) \<le> unat (x - st) + unat (10 :: u32)"
    by (simp add: unat_word_ariths)
  then have "unat ((x - st) + 10) \<le> unat (x - st) + 10" by simp
  then show ?thesis by (simp only: eq)
qed

lemma play_loop_terminates:
  assumes bound: "\<And>j. j < length (recording a) \<Longrightarrow> unat (timestamp (recording a ! j)) \<le> T"
    and T: "T + 10 \<le> 2 ^ 32"
    and i: "i \<le> length (recording a)"
  shows "\<exists>a' w'. play_loop st (i, a, w) = Some (length (recording a), a', w')
           \<and> recording a' = recording a \<and> isRecording a' = isRecording a
           \<and> isPlaying a' = isPlaying a
           \<and> unat (now w' - st) \<le> max (unat (now w - st) + 10) (T + 19)"
  using bound i
proof (induction "T + 10 - unat (now w - st)" arbitrary: i a w rule: less_induct)
  case less
  show ?case
  proof (cases "i < length (recording a)")
    case False
    then have "play_loop st (i, a, w) = Some (length (recording a), a, w)"
      using less.prems(2) by (subst play_loop.simps) simp
    then show ?thesis by simp
  next
    case True
    obtain i1 a1 w1 where p: "poll st (i, a, w) = (i1, a1, w1)"
      by (cases "poll st (i, a, w)") auto
    have keeps: "recording a1 = recording a" "isRecording a1 = isRecording a"
      "isPlaying a1 = isPlaying a" "now w1 = now w + 10" "i1 \<le> length (recording a)"
      using poll_keeps [of st i a w] less.prems(2) by (simp_all add: p)
    have unfold: "play_loop st (i, a, w) = play_loop st (i1, a1, w1)"
      using True by (subst play_loop.simps) (simp add: p)
    show ?thesis
    proof (cases "T \<le> unat (now w - st)")
      case True
      have "timestamp (recording a ! j) \<le> now w - st" if "j < length (recording a)" for j
        using less.prems(1) [OF that] True by (simp add: word_le_nat_alt)
      then have "i1 = length (recording a)"
        using poll_all [of i a w st] less.prems(2) by (simp add: p)
      then have "play_loop st (i1, a1, w1) = Some (length (recording a), a1, w1)"
        by (subst play_loop.simps) (simp add: keeps)
      moreover have "unat (now w1 - st) \<le> unat (now w - st) + 10"
        by (simp add: keeps unat_elapsed_step_le)
      ultimately show ?thesis
        using unfold keeps by auto
    next
      case False
      then have nowrap: "unat (now w - st) + 10 < 2 ^ 32"
        using T by simp
      have e1: "unat (now w1 - st) = unat (now w - st) + 10"
        by (simp add: keeps unat_elapsed_step [OF nowrap])
      have dec: "T + 10 - unat (now w1 - st) < T + 10 - unat (now w - st)"
        using False e1 by simp
      have b1: "\<And>j. j < length (recording a1) \<Longrightarrow> unat (timestamp (recording a1 ! j)) \<le> T"
        using less.prems(1) by (simp add: keeps)
      have i1: "i1 \<le> length (recording a1)" by (simp add: keeps)
      from less.hyps [OF dec b1 i1]
      obtain a' w' where r: "play_loop st (i1, a1, w1) = Some (length (recording a1), a', w')"
        "recording a' = recording a1" "isRecording a' = isRecording a1"
        "isPlaying a' = isPlaying a1"
        "unat (now w' - st) \<le> max (unat (now w1 - st) + 10) (T + 19)"
        by blast
      have "unat (now w' - st) \<le> max (unat (now w - st) + 10) (T + 19)"
        using r(5) e1 False by simp
      then show ?thesis
        using unfold r keeps by auto
    qed
  qed
qed

lemma playback_load_nonempty: "recording a \<noteq> [] \<Longrightarrow> playback_load a w = Inr (a, w)"
  by (simp add: playback_load_def)

lemma playback_start_eq:
  "fst (playback_start a w) = now w + 50"
  "fst (snd (playback_start a w)) = a\<lparr>isPlaying := True, prevButtons := 0\<rparr>"
  "now (snd (snd (playback_start a w))) = now w + 50"
  by (simp_all add: playback_start_def Let_def io_defs)

lemma playback_finish_eq:
  "fst (playback_finish a w) = a\<lparr>isPlaying := False\<rparr>"
  "left_motors (snd (playback_finish a w)) = 0" "right_motors (snd (playback_finish a w)) = 0"
  "Intake (snd (playback_finish a w)) = 0" "Outtake (snd (playback_finish a w)) = 0"
  "MidScoring (snd (playback_finish a w)) = MidScoring w"
  "Descore (snd (playback_finish a w)) = Descore w"
  "Unloader (snd (playback_finish a w)) = Unloader w"
  "now (snd (playback_finish a w)) = now w"
  by (simp_all add: playback_finish_def Let_def io_defs)

lemma loadFromSD_isPlaying: "isPlaying (fst (snd (loadFromSD a w))) = isPlaying a"
  by (simp add: loadFromSD_def Let_def split: option.splits)

lemma loadFromSD_failed:
  assumes "\<not> fst (loadFromSD a w)"
  shows "loadFromSD a w = (False, a, w) \<or> loadFromSD a w = (False, a\<lparr>recording := []\<rparr>, w)"
  using assms by (auto simp: loadFromSD_def Let_def split: option.splits if_splits)

lemma clear_empty: "recording a = [] \<Longrightarrow> a\<lparr>recording := []\<rparr> = a"
  by (cases a) simp

lemma playback_finish_isPlaying: "playback_finish a w = (a', w') \<Longrightarrow> \<not> isPlaying a'"
  by (auto simp: playback_finish_def Let_def)

lemma playback_isPlaying:
  assumes "\<not> isPlaying a" and "playback a w = Some (a', w')"
  shows "\<not> isPlaying a'"
proof (cases "playback_load a w")
  case (Inl r)
  then have "a' = fst r" using assms(2) by (simp add: playback_def)
  moreover have "isPlaying (fst r) = isPlaying a"
    using Inl loadFromSD_isPlaying [of a w]
    by (auto simp: playback_load_def split: if_splits prod.splits)
  ultimately show ?thesis using assms(1) by simp
next
  case (Inr r)
  then show ?thesis
    using assms(2)
    by (auto simp: playback_def split: prod.splits option.splits dest: playback_finish_isPlaying)
qed

lemma run_op_isPlaying:
  assumes "\<not> isPlaying (fst s)" and "run_op x s = Some s'"
  shows "\<not> isPlaying (fst s')"
proof (cases s)
  case (Pair a w)
  show ?thesis
  proof (cases x)
    case Playback
    then show ?thesis
      using assms Pair playback_isPlaying [of a w "fst s'" "snd s'"] by simp
  next
    case LoadFromSD
    then show ?thesis using assms Pair loadFromSD_isPlaying [of a w] by auto
  qed (use assms Pair in \<open>auto simp: startRecording_def stopRecording_def recordFrame_def
        clearRecording_def setIMUCorrectionGain_def Let_def split: if_splits\<close>)
qed

lemma run_ops_isPlaying:
  "\<not> isPlaying (fst s) \<Longrightarrow> run_ops xs s = Some s' \<Longrightarrow> \<not> isPlaying (fst s')"
proof (induction xs arbitrary: s)
  case Nil
  then show ?case by simp
next
  case (Cons x xs)
  then obtain s1 where s1: "run_op x s = Some s1" "run_ops xs s1 = Some s'"
    by (auto split: option.splits)
  from Cons.IH [OF run_op_isPlaying [OF Cons.prems(1) s1(1)] s1(2)] show ?case .
qed

lemma playback_result:
  assumes "recording a \<noteq> []"
    and "\<forall>f \<in> set (recording a). unat (timestamp f) \<le> T"
    and "T + 10 \<le> 2 ^ 32"
  shows "\<exists>a2 w2.
      play_loop (now w + 50) (0, fst (snd (playback_start a w)), snd (snd (playback_start a w)))
        = Some (length (recording a), a2, w2)
      \<and> playback a w = Some (playback_finish a2 w2)
      \<and> unat (now w2 - (now w + 50)) \<le> T + 19
      \<and> now (snd (playback_finish a2 w2)) = now w2
      \<and> \<not> isPlaying (fst (playback_finish a2 w2))
      \<and> left_motors (snd (playback_finish a2 w2)) = 0
      \<and> right_motors (snd (playback_finish a2 w2)) = 0
      \<and> Intake (snd (playback_finish a2 w2)) = 0
      \<and> Outtake (snd (playback_finish a2 w2)) = 0
      \<and> MidScoring (snd (playback_finish a2 w2)) = MidScoring w2
      \<and> Descore (snd (playback_finish a2 w2)) = Descore w2
      \<and> Unloader (snd (playback_finish a2 w2)) = Unloader w2
      \<and> isRecording (fst (playback_finish a2 w2)) = isRecording a"
proof -
  obtain st a1 w1 where ps: "playback_start a w = (st, a1, w1)"
    by (cases "playback_start a w") auto
  have st: "st = now w + 50" and a1: "a1 = a\<lparr>isPlaying := True, prevButtons := 0\<rparr>"
    and w1: "now w1 = now w + 50"
    using playback_start_eq [of a w] by (simp_all add: ps)
  have b: "\<And>j. j < length (recording a1) \<Longrightarrow> unat (timestamp (recording a1 ! j)) \<le> T"
    using assms(2) by (simp add: a1)
  from play_loop_terminates [of a1 T 0 st w1, OF b assms(3)]
  obtain a2 w2 where r: "play_loop st (0, a1, w1) = Some (length (recording a1), a2, w2)"
    and ir: "isRecording a2 = isRecording a1"
    and e: "unat (now w2 - st) \<le> max (unat (now w1 - st) + 10) (T + 19)"
    by auto
  have e': "unat (now w2 - (now w + 50)) \<le> T + 19"
    using e by (simp add: st w1)
  have "playback a w = Some (playback_finish a2 w2)"
    using r assms(1) by (simp add: playback_def playback_load_nonempty ps)
  moreover have "play_loop (now w + 50)
      (0, fst (snd (playback_start a w)), snd (snd (playback_start a w)))
        = Some (length (recording a), a2, w2)"
    using r by (simp add: ps st a1)
  ultimately show ?thesis
    using e' ir by (simp add: a1 playback_finish_eq)
qed

lemma startRecording_eq:
  "fst (startRecording a w) = a\<lparr>recording := [], recordStartTime := now w, isRecording := True\<rparr>"
  "now (snd (startRecording a w)) = now w"
  by (simp_all add: startRecording_def drawStatusIndicator_def Let_def io_defs)

lemma recordFrame_recording:
  "isRecording a \<Longrightarrow>
     recording (fst (recordFrame a w))
       = recording a @ [\<lparr> timestamp = now w - recordStartTime a,
                          leftStick = word_of_int (master_get_analog_left_y w),
                          rightStick = word_of_int (master_get_analog_right_y w),
                          heading = imu_get_heading w,
                          buttons = packButtons w \<rparr>]
     \<and> isRecording (fst (recordFrame a w)) \<and> isPlaying (fst (recordFrame a w)) = isPlaying a"
  by (simp add: recordFrame_def Let_def io_defs)

lemmas playback_eval = playback_def playback_load_def playback_start_def playback_finish_def
     play_loop.simps poll_def due_frames.simps dispatch_frame_def applyHeadingCorrection_eq
     spec_correction_def clamp_def wrap180_id
     clamp_motor_def static_cast_int_def toggle_buttons_def toggle_defs wasPressed_def BTN_defs
     io_defs Let_def final_def

section \<open>Claims\<close>

text \<open>
  C1: the code at a log of one frame (time 20, R1 held), played twice in succession with
  the live heading at 0. The previous-button mask is reset by both calls, but the latch
  \<open>intakeForward\<close> (the first of the seven) is still set when the second call starts,
  so the same rising edge that started the intake in the first run (\<open>IntakeMove 127\<close>)
  stops it in the second (\<open>IntakeMove 0\<close>): the two runs do not issue the same
  commands.
\<close>

theorem playback_twice_commands_differ:
  "replayed_twice (autonReplay\<lparr>recording := [frame_at 20 1]\<rparr>) world0 =
    Some ([ImuSetHeading 0, Delay 50, MasterPrint 0 ''REPLAYING...       '' None,
           ScreenSetPen GREEN, ScreenFillCircle 460 20 15,
           ScreenSetPen GREEN, ScreenFillCircle 460 20 15, Delay 10,
           ScreenSetPen GREEN, ScreenFillCircle 460 20 15, Delay 10,
           LeftMove 100, RightMove 100, IntakeMove 127,
           ScreenSetPen GREEN, ScreenFillCircle 460 20 15, Delay 10,
           LeftMove 0, RightMove 0, IntakeMove 0, OuttakeMove 0,
           MasterPrint 0 ''REPLAY COMPLETE!   '' None, ScreenSetPen BLACK,
           ScreenFillCircle 460 20 15],
          [True, False, False, False, False, False, False],
          [ImuSetHeading 0, Delay 50, MasterPrint 0 ''REPLAYING...       '' None,
           ScreenSetPen GREEN, ScreenFillCircle 460 20 15,
           ScreenSetPen GREEN, ScreenFillCircle 460 20 15, Delay 10,
           ScreenSetPen GREEN, ScreenFillCircle 460 20 15, Delay 10,
           LeftMove 100, RightMove 100, IntakeMove 0,
           ScreenSetPen GREEN, ScreenFillCircle 460 20 15, Delay 10,
           LeftMove 0, RightMove 0, IntakeMove 0, OuttakeMove 0,
           MasterPrint 0 ''REPLAY COMPLETE!   '' None, ScreenSetPen BLACK,
           ScreenFillCircle 460 20 15])"
  by (simp add: replayed_twice_def latches_def playback_eval)




text \<open>
  C3, as stated, for a file that claims 15001 frames while the object holds a log of one
  frame: the load fails, and the log still holds that frame.
\<close>

theorem loadFromSD_oversized_keeps_prior_log:
  "\<not> fst (loadFromSD (autonReplay\<lparr>recording := [frame_at 20 0]\<rparr>)
            (world0\<lparr>sd_file := Some (Stored (Some 15001) [])\<rparr>))
   \<and> recording (fst (snd (loadFromSD (autonReplay\<lparr>recording := [frame_at 20 0]\<rparr>)
            (world0\<lparr>sd_file := Some (Stored (Some 15001) [])\<rparr>)))) \<noteq> []"
  by (simp add: loadFromSD_def)

text \<open>
  C3 (amended): for a stored file whose count exceeds 15000, \<open>loadFromSD\<close> returns
  failure and leaves the object, with whatever log it held, exactly as it was; for a file
  whose count is within the bound but which holds fewer complete records than the count,
  it returns failure and leaves the log empty; and whenever it fails, the log afterwards
  is either the log from before the call or empty, never a partly read one.
\<close>

theorem loadFromSD_failure_log:
  assumes "sd_file w = Some (Stored (Some n) bs)"
  shows "(15000 < n \<longrightarrow> loadFromSD a w = (False, a, w))
     \<and> (n \<le> 15000 \<and> length bs < unat n \<longrightarrow> loadFromSD a w = (False, a\<lparr>recording := []\<rparr>, w))
     \<and> (\<not> fst (loadFromSD a w) \<longrightarrow>
          recording (fst (snd (loadFromSD a w))) = recording a
          \<or> recording (fst (snd (loadFromSD a w))) = [])"
proof -
  consider "15000 < n" | "n \<le> 15000" "length bs < unat n" | "n \<le> 15000" "unat n \<le> length bs"
    by fastforce
  then show ?thesis
  proof cases
    case 1
    then have "\<not> n \<le> 15000" by simp
    with 1 show ?thesis using loadFromSD_oversized [OF assms, of a] by simp
  next
    case 2
    then have "\<not> 15000 < n" by simp
    with 2 show ?thesis using loadFromSD_short [OF assms, of a] by simp
  next
    case 3
    then have "\<not> 15000 < n" and "\<not> length bs < unat n" by simp_all
    with 3 show ?thesis using loadFromSD_complete [OF assms, of a] by simp
  qed
qed


theorem loadFromSD_failure_log_witness:
  "loadFromSD (autonReplay\<lparr>recording := [frame_at 20 0]\<rparr>)
      (world0\<lparr>sd_file := Some (Stored (Some 15001) [])\<rparr>)
     = (False, autonReplay\<lparr>recording := [frame_at 20 0]\<rparr>,
        world0\<lparr>sd_file := Some (Stored (Some 15001) [])\<rparr>)
   \<and> loadFromSD (autonReplay\<lparr>recording := [frame_at 20 0]\<rparr>)
      (world0\<lparr>sd_file := Some (Stored (Some 2) [frame_at 20 1])\<rparr>)
     = (False, autonReplay\<lparr>recording := []\<rparr>,
        world0\<lparr>sd_file := Some (Stored (Some 2) [frame_at 20 1])\<rparr>)"
  using loadFromSD_failure_log [of "world0\<lparr>sd_file := Some (Stored (Some 15001) [])\<rparr>" 15001 "[]"
      "autonReplay\<lparr>recording := [frame_at 20 0]\<rparr>"]
    loadFromSD_failure_log [of "world0\<lparr>sd_file := Some (Stored (Some 2) [frame_at 20 1])\<rparr>" 2 "[frame_at 20 1]"
      "autonReplay\<lparr>recording := [frame_at 20 0]\<rparr>"]
  by simp

text \<open>
  C4, as stated, for a stored file that holds a count of zero and no frames: the load
  succeeds, and \<open>playback\<close> goes on to announce the replay, run the empty loop and
  command all four motors, instead of reporting that there is no recording.
\<close>

theorem playback_zero_frame_file_replays:
  "final trace (playback autonReplay (world0\<lparr>sd_file := Some (Stored (Some 0) [])\<rparr>))
     = Some [MasterPrint 0 ''LOADED: %d frames  '' (Some 0),
             ImuSetHeading 0, Delay 50, MasterPrint 0 ''REPLAYING...       '' None,
             ScreenSetPen GREEN, ScreenFillCircle 460 20 15,
             LeftMove 0, RightMove 0, IntakeMove 0, OuttakeMove 0,
             MasterPrint 0 ''REPLAY COMPLETE!   '' None, ScreenSetPen BLACK,
             ScreenFillCircle 460 20 15]"
  by (simp add: playback_def playback_load_def loadFromSD_def read_frames.simps playback_start_def
      play_loop.simps playback_finish_def io_defs Let_def final_def)

text \<open>
  C4 (amended): on an empty in-memory log, whenever \<open>loadFromSD\<close> fails, \<open>playback\<close>
  prints the no-recording message and returns with the object and every actuator
  untouched; the load fails when no file is present and when the file is too short to
  hold a count (an empty file). When the file holds the count 0, the load succeeds and
  \<open>playback\<close> proceeds: it announces the load and the replay, runs no loop pass, commands
  the four motors to 0 and announces completion.
\<close>

theorem playback_empty_log:
  assumes "recording a = []"
  shows "(\<not> fst (loadFromSD a w) \<longrightarrow>
            playback a w = Some (a, master_print 0 ''NO RECORDING!      '' None w))
     \<and> (sd_file w = None \<longrightarrow> \<not> fst (loadFromSD a w))
     \<and> (sd_file w = Some (Stored None bs) \<longrightarrow> \<not> fst (loadFromSD a w))
     \<and> (sd_file w = Some (Stored (Some 0) bs) \<longrightarrow>
          final trace (playback a w) = Some (trace w @
            [MasterPrint 0 ''LOADED: %d frames  '' (Some 0),
             ImuSetHeading 0, Delay 50, MasterPrint 0 ''REPLAYING...       '' None,
             ScreenSetPen GREEN, ScreenFillCircle 460 20 15,
             LeftMove 0, RightMove 0, IntakeMove 0, OuttakeMove 0,
             MasterPrint 0 ''REPLAY COMPLETE!   '' None, ScreenSetPen BLACK,
             ScreenFillCircle 460 20 15]))"
proof -
  have "playback a w = Some (a, master_print 0 ''NO RECORDING!      '' None w)"
    if "\<not> fst (loadFromSD a w)"
    using loadFromSD_failed [OF that] assms
    by (auto simp: playback_def playback_load_def clear_empty)
  moreover have "\<not> fst (loadFromSD a w)" if "sd_file w = None"
    using that by (simp add: loadFromSD_no_file)
  moreover have "\<not> fst (loadFromSD a w)" if "sd_file w = Some (Stored None bs)"
    using that by (simp add: loadFromSD_no_count)
  moreover have "final trace (playback a w) = Some (trace w @
            [MasterPrint 0 ''LOADED: %d frames  '' (Some 0),
             ImuSetHeading 0, Delay 50, MasterPrint 0 ''REPLAYING...       '' None,
             ScreenSetPen GREEN, ScreenFillCircle 460 20 15,
             LeftMove 0, RightMove 0, IntakeMove 0, OuttakeMove 0,
             MasterPrint 0 ''REPLAY COMPLETE!   '' None, ScreenSetPen BLACK,
             ScreenFillCircle 460 20 15])"
    if "sd_file w = Some (Stored (Some 0) bs)"
    using loadFromSD_complete [OF that, of a] assms
    by (simp add: playback_def playback_load_def playback_start_def play_loop.simps
        playback_finish_def io_defs Let_def final_def)
  ultimately show ?thesis by blast
qed

theorem playback_empty_log_witness:
  "playback autonReplay world0
     = Some (autonReplay, master_print 0 ''NO RECORDING!      '' None world0)
   \<and> playback autonReplay (world0\<lparr>sd_file := Some (Stored None [])\<rparr>)
     = Some (autonReplay,
         master_print 0 ''NO RECORDING!      '' None (world0\<lparr>sd_file := Some (Stored None [])\<rparr>))
   \<and> final trace (playback autonReplay (world0\<lparr>sd_file := Some (Stored (Some 0) [])\<rparr>))
     = Some [MasterPrint 0 ''LOADED: %d frames  '' (Some 0),
             ImuSetHeading 0, Delay 50, MasterPrint 0 ''REPLAYING...       '' None,
             ScreenSetPen GREEN, ScreenFillCircle 460 20 15,
             LeftMove 0, RightMove 0, IntakeMove 0, OuttakeMove 0,
             MasterPrint 0 ''REPLAY COMPLETE!   '' None, ScreenSetPen BLACK,
             ScreenFillCircle 460 20 15]"
  using playback_empty_log [of autonReplay world0 "[]"]
    playback_empty_log [of autonReplay "world0\<lparr>sd_file := Some (Stored None [])\<rparr>" "[]"]
    playback_empty_log [of autonReplay "world0\<lparr>sd_file := Some (Stored (Some 0) [])\<rparr>" "[]"]
  by simp








text \<open>
  C8: while the recording flag is clear, \<open>recordFrame\<close> returns at once: the object
  (the log included) and the environment are exactly as before, so nothing is sampled and
  no frame is appended.
\<close>

theorem recordFrame_not_recording_noop:
  "\<not> isRecording a \<Longrightarrow> recordFrame a w = (a, w)"
  by (simp add: recordFrame_def)

theorem recordFrame_not_recording_noop_witness:
  "\<not> isRecording autonReplay \<and> recordFrame autonReplay world0 = (autonReplay, world0)"
  using recordFrame_not_recording_noop [of autonReplay world0] by simp

text \<open>
  C9, as stated, for \<open>playback\<close> called while a recording is in progress: the log is not
  empty, so the call goes on to the loop, and the state in which the loop is entered has
  both the recording flag and the playing flag set.
\<close>

theorem playback_while_recording_both_flags:
  "playback_load (fst recording_session) (snd recording_session) = Inr recording_session
   \<and> isRecording (fst (snd (playback_start (fst recording_session) (snd recording_session))))
   \<and> isPlaying (fst (snd (playback_start (fst recording_session) (snd recording_session))))"
proof -
  have "isRecording (fst recording_session)" "recording (fst recording_session) \<noteq> []"
    by (simp_all add: recording_session_def startRecording_def recordFrame_def Let_def
        split: prod.splits)
  then show ?thesis
    by (simp add: playback_load_nonempty playback_start_eq)
qed

text \<open>
  C9 (amended): the two flags are independent members. Starting from an object whose
  playing flag is clear, after any sequence of public operations that returns the playing
  flag is clear again, so between operations the two flags are never both set. Inside a
  \<open>playback\<close> call the playing flag is set and the recording flag is whatever it was at
  the call, and every pass of the loop keeps both: \<open>playback\<close> called while recording
  runs with both flags set.
\<close>

theorem flags_between_operations:
  "(\<not> isPlaying a \<and> run_ops xs (a, w) = Some (a', w') \<longrightarrow> \<not> isPlaying a')
   \<and> isPlaying (fst (snd (playback_start a w)))
   \<and> isRecording (fst (snd (playback_start a w))) = isRecording a
   \<and> isPlaying (fst (snd (poll st (i, a, w)))) = isPlaying a
   \<and> isRecording (fst (snd (poll st (i, a, w)))) = isRecording a"
  using run_ops_isPlaying [of "(a, w)" xs "(a', w')"] poll_keeps [of st i a w]
  by (simp add: playback_start_eq)

theorem flags_between_operations_witness:
  "\<exists>a' w'. run_ops [StartRecording, Wait 20, RecordFrame, Playback] (autonReplay, world0) = Some (a', w')
      \<and> \<not> isPlaying a' \<and> isRecording a'"
proof -
  obtain a1 w1 where s1: "startRecording autonReplay world0 = (a1, w1)"
    by (cases "startRecording autonReplay world0") auto
  obtain a3 w3 where s3: "recordFrame a1 (delay 20 w1) = (a3, w3)"
    by (cases "recordFrame a1 (delay 20 w1)") auto
  have a1: "a1 = autonReplay\<lparr>recording := [], recordStartTime := 0, isRecording := True\<rparr>"
    and w1: "now w1 = 0"
    using startRecording_eq [of autonReplay world0] by (simp_all add: s1)
  have f1: "isRecording a1" "\<not> isPlaying a1" "recording a1 = []" "recordStartTime a1 = 0"
    by (simp_all add: a1)
  have nd: "now (delay 20 w1) = 20"
    by (simp add: delay_def emit_def w1)
  note rf = recordFrame_recording [OF f1(1), of "delay 20 w1", unfolded s3 fst_conv f1 nd]
  have a3: "length (recording a3) = 1" "timestamp (recording a3 ! 0) = 20" "isRecording a3"
    "\<not> isPlaying a3"
    using rf f1(2) by simp_all
  have "recording a3 \<noteq> []" and "\<forall>f \<in> set (recording a3). unat (timestamp f) \<le> 20"
    using a3(1,2) by (cases "recording a3"; simp)+
  from playback_result [OF this, of w3]
  obtain a2 w2 where p: "playback a3 w3 = Some (playback_finish a2 w2)"
    and r: "isRecording (fst (playback_finish a2 w2))"
    using a3(3) by auto
  have run: "run_ops [StartRecording, Wait 20, RecordFrame, Playback] (autonReplay, world0)
      = Some (playback_finish a2 w2)"
    by (simp add: s1 s3 p)
  have "\<not> isPlaying (fst (playback_finish a2 w2))"
    using flags_between_operations [of autonReplay "[StartRecording, Wait 20, RecordFrame, Playback]" world0
        "fst (playback_finish a2 w2)" "snd (playback_finish a2 w2)"] run
    by simp
  with run r show ?thesis
    by (metis prod.collapse)
qed

text \<open>
  C10: \<open>saveToSD\<close> returns success exactly when the file could be opened for writing;
  the outcome of the writes, which depends on the room left on the card, has no influence
  on the result.
\<close>

theorem saveToSD_success_iff_opened:
  "fst (saveToSD a w) = sd_writable w"
  by (simp add: saveToSD_def fopen_wb_def Let_def)

text \<open>
  On a card that opens but has no room, the first write already writes 0 items and the
  save still reports success; without a card the save reports failure.
\<close>

theorem saveToSD_success_iff_opened_witness:
  "fst (fwrite_count 1 (world0\<lparr>sd_writable := True\<rparr>)) = 0
   \<and> fst (saveToSD (autonReplay\<lparr>recording := [frame_at 20 0]\<rparr>) (world0\<lparr>sd_writable := True\<rparr>))
   \<and> \<not> fst (saveToSD (autonReplay\<lparr>recording := [frame_at 20 0]\<rparr>) world0)"
  using saveToSD_success_iff_opened
      [of "autonReplay\<lparr>recording := [frame_at 20 0]\<rparr>" "world0\<lparr>sd_writable := True\<rparr>"]
    saveToSD_success_iff_opened [of "autonReplay\<lparr>recording := [frame_at 20 0]\<rparr>" world0]
  by (simp add: fwrite_count_def sizeof_uint32_def)

end
